theory Spec2Isabelle
  imports Main
begin

section \<open>Values, dictionaries and errors\<close>

text \<open>
  The values a wire payload carries: the Python images of JSON null, booleans, integers
  and strings (numbers with a fraction, arrays and objects are left out: no field of the
  Extra-Config holds one). \<open>JNull\<close> is Python's \<open>None\<close>.
\<close>

datatype json = JNull | JBool bool | JInt int | JStr string

datatype error = ValidationError | MalformedPayloadError

text \<open>
  A dictionary that is only read (the payload handed to \<open>from_espminer\<close>) is a map;
  \<open>d.get(k)\<close> gives \<open>None\<close> for a missing key and never raises.
\<close>

type_synonym payload = "string \<rightharpoonup> json"

definition dict_get :: "payload \<Rightarrow> string \<Rightarrow> json" where
  "dict_get d k = (case d k of None \<Rightarrow> JNull | Some v \<Rightarrow> v)"

text \<open>
  A dictionary that is built (the result of \<open>as_espminer\<close>) keeps its insertion order:
  an association list, where \<open>result[k] = v\<close> replaces the value of an existing key in
  place and appends a new key at the end.
\<close>

fun dict_set :: "(string \<times> json) list \<Rightarrow> string \<Rightarrow> json \<Rightarrow> (string \<times> json) list" where
  "dict_set [] k v = [(k, v)]"
| "dict_set ((k', v') # d) k v =
     (if k' = k then (k, v) # d else (k', v') # dict_set d k v)"

section \<open>ESPMinerExtraConfig\<close>

text \<open>
  The seven fields of the class, each \<open>int | None\<close> with default \<open>None\<close>.
\<close>

record ESPMinerExtraConfig =
  rotation :: "int option"
  invertscreen :: "int option"
  display_timeout :: "int option"
  overheat_mode :: "int option"
  overclock_enabled :: "int option"
  stats_frequency :: "int option"
  min_fan_speed :: "int option"

text \<open>\<open>getattr(self, field_name, None)\<close>: the field of that name, \<open>None\<close> for any other name.\<close>

definition getattr :: "ESPMinerExtraConfig \<Rightarrow> string \<Rightarrow> int option" where
  "getattr self field_name =
     (if field_name = ''rotation'' then rotation self
      else if field_name = ''invertscreen'' then invertscreen self
      else if field_name = ''display_timeout'' then display_timeout self
      else if field_name = ''overheat_mode'' then overheat_mode self
      else if field_name = ''overclock_enabled'' then overclock_enabled self
      else if field_name = ''stats_frequency'' then stats_frequency self
      else if field_name = ''min_fan_speed'' then min_fan_speed self
      else None)"

text \<open>The table of \<open>as_espminer\<close>, in the order the literal lists it.\<close>

definition field_mapping :: "(string \<times> string) list" where
  "field_mapping =
     [(''rotation'', ''rotation''),
      (''invertscreen'', ''invertscreen''),
      (''display_timeout'', ''displayTimeout''),
      (''overheat_mode'', ''overheat_mode''),
      (''overclock_enabled'', ''overclockEnabled''),
      (''stats_frequency'', ''statsFrequency''),
      (''min_fan_speed'', ''minFanSpeed'')]"

text \<open>
  One pass of the loop body of \<open>as_espminer\<close>, and the loop over the items of the table,
  starting from the empty dictionary.
\<close>

definition as_espminer_step ::
  "ESPMinerExtraConfig \<Rightarrow> string \<times> string \<Rightarrow> (string \<times> json) list \<Rightarrow> (string \<times> json) list" where
  "as_espminer_step self item result =
     (case getattr self (fst item) of
        None \<Rightarrow> result
      | Some v \<Rightarrow> dict_set result (snd item) (JInt v))"

definition as_espminer :: "ESPMinerExtraConfig \<Rightarrow> (string \<times> json) list" where
  "as_espminer self = fold (as_espminer_step self) field_mapping []"

text \<open>
  The constructor \<open>cls(...)\<close> is inherited from the base model \<open>MinerExtraConfig\<close> (a
  pydantic model: the tests call \<open>model_dump\<close> on it), which checks every keyword argument
  against the annotation \<open>int | None\<close> of its field and raises when one of them does not
  fit. The base model is not among the sources, so the check of one argument is the
  parameter \<open>validate\<close>. The constructor fails when one of the seven checks fails, and
  \<open>from_espminer\<close> has no handler around it: each \<open>web_system_info.get(...)\<close> goes to the
  constructor as it is.
\<close>

type_synonym validator = "json \<Rightarrow> error + int option"

definition bind_err :: "error + 'a \<Rightarrow> ('a \<Rightarrow> error + 'b) \<Rightarrow> error + 'b" where
  "bind_err r f = (case r of Inl e \<Rightarrow> Inl e | Inr x \<Rightarrow> f x)"

definition new_ESPMinerExtraConfig ::
  "validator \<Rightarrow> json \<Rightarrow> json \<Rightarrow> json \<Rightarrow> json \<Rightarrow> json \<Rightarrow> json \<Rightarrow> json
     \<Rightarrow> error + ESPMinerExtraConfig" where
  "new_ESPMinerExtraConfig validate a1 a2 a3 a4 a5 a6 a7 =
     bind_err (validate a1) (\<lambda>v1.
     bind_err (validate a2) (\<lambda>v2.
     bind_err (validate a3) (\<lambda>v3.
     bind_err (validate a4) (\<lambda>v4.
     bind_err (validate a5) (\<lambda>v5.
     bind_err (validate a6) (\<lambda>v6.
     bind_err (validate a7) (\<lambda>v7.
       Inr \<lparr>rotation = v1, invertscreen = v2, display_timeout = v3,
            overheat_mode = v4, overclock_enabled = v5, stats_frequency = v6,
            min_fan_speed = v7\<rparr>)))))))"

definition from_espminer :: "validator \<Rightarrow> payload \<Rightarrow> error + ESPMinerExtraConfig" where
  "from_espminer validate web_system_info =
     new_ESPMinerExtraConfig validate
       (dict_get web_system_info ''rotation'')
       (dict_get web_system_info ''invertscreen'')
       (dict_get web_system_info ''displayTimeout'')
       (dict_get web_system_info ''overheat_mode'')
       (dict_get web_system_info ''overclockEnabled'')
       (dict_get web_system_info ''statsFrequency'')
       (dict_get web_system_info ''minFanSpeed'')"

text \<open>
  What every check of an \<open>int | None\<close> field does: \<open>None\<close> and an integer are stored as
  they are. \<open>int_or_none\<close> is the check that accepts nothing else. It is stricter than the
  constructor of the code may be on a boolean or on a string that spells a number, which a
  check can convert to an integer; it is used below only on integers, on \<open>None\<close> and on
  strings that spell no number, where every such check gives the same.
\<close>

definition stores_int_and_none :: "validator \<Rightarrow> bool" where
  "stores_int_and_none validate \<longleftrightarrow>
     validate JNull = Inr None \<and> (\<forall>i. validate (JInt i) = Inr (Some i))"

fun int_or_none :: validator where
  "int_or_none JNull = Inr None"
| "int_or_none (JInt i) = Inr (Some i)"
| "int_or_none (JBool b) = Inl ValidationError"
| "int_or_none (JStr s) = Inl ValidationError"

text \<open>The integer a payload value carries, if it is one.\<close>

fun as_int :: "json \<Rightarrow> int option" where
  "as_int (JInt i) = Some i"
| "as_int v = None"

text \<open>The entry one item of the table contributes to the result of \<open>as_espminer\<close>.\<close>

definition wire_entry :: "ESPMinerExtraConfig \<Rightarrow> string \<times> string \<Rightarrow> (string \<times> json) option" where
  "wire_entry self item = map_option (\<lambda>v. (snd item, JInt v)) (getattr self (fst item))"

section \<open>MinerConfig.from_espminer\<close>

text \<open>
  Modelled from the spec: \<open>MinerConfig.from_espminer\<close>, \<open>PoolConfig\<close> and \<open>FanModeConfig\<close>
  are not among the sources; only the tests that call them are. The spec says: the base
  fields (pools, fan policy) are built first, the fan policy needs the fan-mode indicator
  \<open>autofanspeed\<close> to be present and fails with a data error otherwise, and a failure of a
  base field fails the whole parse; then the Extra-Config is built from the same payload,
  and when all its fields are unset the \<open>extra_config\<close> of the result is \<open>None\<close>. How pools
  and the fan policy are read from the payload is left open: \<open>parse_pools\<close> and \<open>fan_of\<close>
  are parameters.
\<close>

record ('pools, 'fan) MinerConfig =
  pools :: 'pools
  fan_mode :: 'fan
  extra_config :: "ESPMinerExtraConfig option"

definition FanModeConfig_from_espminer ::
  "(json \<Rightarrow> payload \<Rightarrow> error + 'fan) \<Rightarrow> payload \<Rightarrow> error + 'fan" where
  "FanModeConfig_from_espminer fan_of web_system_info =
     (case web_system_info ''autofanspeed'' of
        None \<Rightarrow> Inl MalformedPayloadError
      | Some indicator \<Rightarrow> fan_of indicator web_system_info)"

definition all_unset :: "ESPMinerExtraConfig \<Rightarrow> bool" where
  "all_unset ec \<longleftrightarrow>
     rotation ec = None \<and> invertscreen ec = None \<and> display_timeout ec = None \<and>
     overheat_mode ec = None \<and> overclock_enabled ec = None \<and> stats_frequency ec = None \<and>
     min_fan_speed ec = None"

definition MinerConfig_from_espminer ::
  "(payload \<Rightarrow> error + 'pools) \<Rightarrow> (json \<Rightarrow> payload \<Rightarrow> error + 'fan) \<Rightarrow> validator
     \<Rightarrow> payload \<Rightarrow> error + ('pools, 'fan) MinerConfig" where
  "MinerConfig_from_espminer parse_pools fan_of validate web_system_info =
     bind_err (parse_pools web_system_info) (\<lambda>pl.
     bind_err (FanModeConfig_from_espminer fan_of web_system_info) (\<lambda>fm.
     bind_err (from_espminer validate web_system_info) (\<lambda>ec.
       Inr \<lparr>pools = pl, fan_mode = fm,
            extra_config = (if all_unset ec then None else Some ec)\<rparr>)))"

text \<open>
  One choice of the two readers, to run the composition on concrete payloads: the pools
  are whatever the payload has at \<open>stratumURL\<close>, possibly nothing, and the fan policy is
  the indicator itself. Neither of them ever fails: they ask less of a payload than any
  reader of pools and fan policy does, so a parse that fails with them fails for the
  missing fan-mode indicator or for the Extra-Config alone. The readers that check the
  shape of the base fields follow in the next section.
\<close>

definition sample_pools :: "payload \<Rightarrow> error + json option" where
  "sample_pools web_system_info = Inr (web_system_info ''stratumURL'')"

definition sample_fan :: "json \<Rightarrow> payload \<Rightarrow> error + json" where
  "sample_fan indicator web_system_info = Inr indicator"

section \<open>The base fields\<close>



definition get_str :: "payload \<Rightarrow> string \<Rightarrow> error + string" where
  "get_str web_system_info k =
     (case web_system_info k of Some (JStr s) \<Rightarrow> Inr s | _ \<Rightarrow> Inl MalformedPayloadError)"

definition get_int :: "payload \<Rightarrow> string \<Rightarrow> error + int" where
  "get_int web_system_info k =
     (case web_system_info k of Some (JInt i) \<Rightarrow> Inr i | _ \<Rightarrow> Inl MalformedPayloadError)"






section \<open>\<open>as_espminer\<close> as a method on objects\<close>

text \<open>
  The same method with what it touches made explicit. The instance and the dictionary it
  builds are objects in a store, reached by reference; a new object gets the next free
  reference. \<open>result = {}\<close> allocates the dictionary, \<open>getattr(self, field_name, None)\<close> reads
  a field of the object at \<open>self\<close> (\<open>None\<close> when it has no such field), \<open>result[api_name] = value\<close>
  writes into the object at \<open>result\<close>, and the method returns the reference \<open>result\<close>. There
  is no other statement in the body, and none that assigns to an attribute of \<open>self\<close>.
\<close>

datatype obj = Instance ESPMinerExtraConfig | Dictionary "(string \<times> json) list"

record store =
  cells :: "nat \<rightharpoonup> obj"
  next_ref :: nat

definition alloc :: "store \<Rightarrow> obj \<Rightarrow> nat \<times> store" where
  "alloc s ob =
     (next_ref s, s\<lparr>cells := (cells s)(next_ref s \<mapsto> ob), next_ref := Suc (next_ref s)\<rparr>)"

definition store_getattr :: "store \<Rightarrow> nat \<Rightarrow> string \<Rightarrow> int option" where
  "store_getattr s ref field_name =
     (case cells s ref of Some (Instance c) \<Rightarrow> getattr c field_name | _ \<Rightarrow> None)"

definition store_setitem :: "store \<Rightarrow> nat \<Rightarrow> string \<Rightarrow> json \<Rightarrow> store" where
  "store_setitem s ref k v =
     (case cells s ref of
        Some (Dictionary d) \<Rightarrow> s\<lparr>cells := (cells s)(ref \<mapsto> Dictionary (dict_set d k v))\<rparr>
      | _ \<Rightarrow> s)"

definition as_espminer_body :: "nat \<Rightarrow> nat \<Rightarrow> string \<times> string \<Rightarrow> store \<Rightarrow> store" where
  "as_espminer_body self result item s =
     (case store_getattr s self (fst item) of
        None \<Rightarrow> s
      | Some v \<Rightarrow> store_setitem s result (snd item) (JInt v))"

definition as_espminer_call :: "nat \<Rightarrow> store \<Rightarrow> nat \<times> store" where
  "as_espminer_call self s =
     (case alloc s (Dictionary []) of
        (result, s1) \<Rightarrow> (result, fold (as_espminer_body self result) field_mapping s1))"

section \<open>The loop of \<open>as_espminer\<close> in closed form\<close>

lemma dict_set_fresh: "k \<notin> fst ` set d \<Longrightarrow> dict_set d k v = d @ [(k, v)]"
  by (induction d) auto

lemma fold_step_closed:
  "distinct (map snd fm) \<Longrightarrow> snd ` set fm \<inter> fst ` set acc = {} \<Longrightarrow>
   fold (as_espminer_step self) fm acc = acc @ List.map_filter (wire_entry self) fm"
proof (induction fm arbitrary: acc)
  case Nil
  then show ?case by (simp add: List.map_filter_def)
next
  case (Cons item fm)
  show ?case
  proof (cases "getattr self (fst item)")
    case None
    then have step: "as_espminer_step self item acc = acc"
      by (simp add: as_espminer_step_def)
    from Cons.prems have "snd ` set fm \<inter> fst ` set acc = {}" by auto
    with Cons.prems Cons.IH [of acc] step None show ?thesis
      by (simp add: wire_entry_def)
  next
    case (Some v)
    from Cons.prems have fresh: "snd item \<notin> fst ` set acc" by auto
    then have step: "as_espminer_step self item acc = acc @ [(snd item, JInt v)]"
      by (simp add: as_espminer_step_def Some dict_set_fresh)
    from Cons.prems have "snd ` set fm \<inter> fst ` set (acc @ [(snd item, JInt v)]) = {}"
      by auto
    with Cons.prems Cons.IH [of "acc @ [(snd item, JInt v)]"] step Some show ?thesis
      by (simp add: wire_entry_def)
  qed
qed

lemma field_mapping_distinct_wire: "distinct (map snd field_mapping)"
  by (simp add: field_mapping_def)


lemma as_espminer_closed:
  "as_espminer self = List.map_filter (wire_entry self) field_mapping"
  unfolding as_espminer_def
  using fold_step_closed [OF field_mapping_distinct_wire, of "[]" self] by simp

lemma map_filter_keys:
  "map fst (List.map_filter (wire_entry self) fm) =
     map snd (filter (\<lambda>item. getattr self (fst item) \<noteq> None) fm)"
  by (induction fm) (auto simp: wire_entry_def)

lemma map_filter_key_set:
  "k \<in> fst ` set (List.map_filter (wire_entry self) fm) \<longleftrightarrow>
     (\<exists>f. (f, k) \<in> set fm \<and> getattr self f \<noteq> None)"
proof -
  have "fst ` set (List.map_filter (wire_entry self) fm) =
          set (map fst (List.map_filter (wire_entry self) fm))"
    by simp
  also have "\<dots> = snd ` {item \<in> set fm. getattr self (fst item) \<noteq> None}"
    by (simp only: map_filter_keys set_map set_filter)
  finally have eq: "fst ` set (List.map_filter (wire_entry self) fm) =
      snd ` {item \<in> set fm. getattr self (fst item) \<noteq> None}" .
  show ?thesis unfolding eq by force
qed

section \<open>The table and the constructor\<close>

lemma getattr_simps:
  "getattr self ''rotation'' = rotation self"
  "getattr self ''invertscreen'' = invertscreen self"
  "getattr self ''display_timeout'' = display_timeout self"
  "getattr self ''overheat_mode'' = overheat_mode self"
  "getattr self ''overclock_enabled'' = overclock_enabled self"
  "getattr self ''stats_frequency'' = stats_frequency self"
  "getattr self ''min_fan_speed'' = min_fan_speed self"
  by (simp_all add: getattr_def)

lemma in_field_mapping:
  "(f, k) \<in> set field_mapping \<longleftrightarrow>
     f = ''rotation'' \<and> k = ''rotation'' \<or>
     f = ''invertscreen'' \<and> k = ''invertscreen'' \<or>
     f = ''display_timeout'' \<and> k = ''displayTimeout'' \<or>
     f = ''overheat_mode'' \<and> k = ''overheat_mode'' \<or>
     f = ''overclock_enabled'' \<and> k = ''overclockEnabled'' \<or>
     f = ''stats_frequency'' \<and> k = ''statsFrequency'' \<or>
     f = ''min_fan_speed'' \<and> k = ''minFanSpeed''"
  by (simp add: field_mapping_def)

lemma wire_keys:
  "snd ` set field_mapping =
     {''rotation'', ''invertscreen'', ''displayTimeout'', ''overheat_mode'',
      ''overclockEnabled'', ''statsFrequency'', ''minFanSpeed''}"
  unfolding field_mapping_def by (simp only: list.set image_insert image_empty snd_conv)

lemma new_config_Inr:
  "new_ESPMinerExtraConfig validate a1 a2 a3 a4 a5 a6 a7 = Inr c \<longleftrightarrow>
     validate a1 = Inr (rotation c) \<and> validate a2 = Inr (invertscreen c) \<and>
     validate a3 = Inr (display_timeout c) \<and> validate a4 = Inr (overheat_mode c) \<and>
     validate a5 = Inr (overclock_enabled c) \<and> validate a6 = Inr (stats_frequency c) \<and>
     validate a7 = Inr (min_fan_speed c)"
  unfolding new_ESPMinerExtraConfig_def bind_err_def
  by (cases c) (auto split: sum.splits)

lemma from_espminer_Inr:
  "from_espminer validate p = Inr c \<longleftrightarrow>
     validate (dict_get p ''rotation'') = Inr (rotation c) \<and>
     validate (dict_get p ''invertscreen'') = Inr (invertscreen c) \<and>
     validate (dict_get p ''displayTimeout'') = Inr (display_timeout c) \<and>
     validate (dict_get p ''overheat_mode'') = Inr (overheat_mode c) \<and>
     validate (dict_get p ''overclockEnabled'') = Inr (overclock_enabled c) \<and>
     validate (dict_get p ''statsFrequency'') = Inr (stats_frequency c) \<and>
     validate (dict_get p ''minFanSpeed'') = Inr (min_fan_speed c)"
  unfolding from_espminer_def by (rule new_config_Inr)

lemma from_espminer_Inr_table:
  "from_espminer validate p = Inr c \<longleftrightarrow>
     (\<forall>(f, k) \<in> set field_mapping. validate (dict_get p k) = Inr (getattr c f))"
proof -
  have "(\<forall>(f, k) \<in> set field_mapping. validate (dict_get p k) = Inr (getattr c f)) \<longleftrightarrow>
     validate (dict_get p ''rotation'') = Inr (rotation c) \<and>
     validate (dict_get p ''invertscreen'') = Inr (invertscreen c) \<and>
     validate (dict_get p ''displayTimeout'') = Inr (display_timeout c) \<and>
     validate (dict_get p ''overheat_mode'') = Inr (overheat_mode c) \<and>
     validate (dict_get p ''overclockEnabled'') = Inr (overclock_enabled c) \<and>
     validate (dict_get p ''statsFrequency'') = Inr (stats_frequency c) \<and>
     validate (dict_get p ''minFanSpeed'') = Inr (min_fan_speed c)"
    unfolding field_mapping_def
    by (simp only: list.set ball_simps prod.case getattr_simps simp_thms)
  then show ?thesis by (simp only: from_espminer_Inr)
qed

lemma from_espminer_Inl:
  "(\<exists>e. from_espminer validate p = Inl e) \<longleftrightarrow>
     (\<exists>k \<in> snd ` set field_mapping. \<exists>e. validate (dict_get p k) = Inl e)"
  unfolding wire_keys from_espminer_def new_ESPMinerExtraConfig_def bind_err_def
  by (auto split: sum.splits)

section \<open>Serialisation: which keys, in which order\<close>

text \<open>
  C2. The dictionary returned by \<open>as_espminer\<close> has a key exactly for every field that is
  set: a wire key is present if and only if the table maps a field whose value is not
  \<open>None\<close> to it. So no unset field contributes a key, every key is a wire key of the table,
  and no key occurs twice.
\<close>

theorem as_espminer_keys_exactly_set_fields:
  "(k \<in> fst ` set (as_espminer self) \<longleftrightarrow>
      (\<exists>f. (f, k) \<in> set field_mapping \<and> getattr self f \<noteq> None)) \<and>
   fst ` set (as_espminer self) \<subseteq> snd ` set field_mapping \<and>
   distinct (map fst (as_espminer self))"
proof -
  have keys: "k \<in> fst ` set (as_espminer self) \<longleftrightarrow>
      (\<exists>f. (f, k) \<in> set field_mapping \<and> getattr self f \<noteq> None)" for k
    by (simp only: as_espminer_closed map_filter_key_set)
  have sub: "fst ` set (as_espminer self) \<subseteq> snd ` set field_mapping"
  proof
    fix k assume "k \<in> fst ` set (as_espminer self)"
    with keys obtain f where "(f, k) \<in> set field_mapping" by blast
    then show "k \<in> snd ` set field_mapping" by force
  qed
  have "distinct (map snd (filter (\<lambda>item. getattr self (fst item) \<noteq> None) field_mapping))"
    using field_mapping_distinct_wire by (rule distinct_map_filter)
  then have "distinct (map fst (as_espminer self))"
    by (simp only: as_espminer_closed map_filter_keys)
  with keys sub show ?thesis by blast
qed

text \<open>
  The result as a list: the entries of the set fields, in the order of the table.
\<close>

lemma as_espminer_entries_in_order:
  "as_espminer self =
     List.map_filter (\<lambda>item. map_option (\<lambda>v. (snd item, JInt v)) (getattr self (fst item)))
       field_mapping \<and>
   map fst (as_espminer self) =
     map snd (filter (\<lambda>item. getattr self (fst item) \<noteq> None) field_mapping)"
proof
  have "wire_entry self = (\<lambda>item. map_option (\<lambda>v. (snd item, JInt v)) (getattr self (fst item)))"
    by (rule ext) (simp add: wire_entry_def)
  then show "as_espminer self =
     List.map_filter (\<lambda>item. map_option (\<lambda>v. (snd item, JInt v)) (getattr self (fst item)))
       field_mapping"
    by (simp only: as_espminer_closed)
  show "map fst (as_espminer self) =
     map snd (filter (\<lambda>item. getattr self (fst item) \<noteq> None) field_mapping)"
    by (simp only: as_espminer_closed map_filter_keys)
qed

section \<open>Reading back what was written\<close>

lemma wire_entry_pair:
  "wire_entry self (f, k) = map_option (\<lambda>v. (k, JInt v)) (getattr self f)"
  by (simp add: wire_entry_def)

lemma wire_entry_key: "wire_entry self item = Some y \<Longrightarrow> fst y = snd item"
  by (auto simp: wire_entry_def)

lemma map_of_entries:
  "distinct (map snd fm) \<Longrightarrow> (f, k) \<in> set fm \<Longrightarrow>
   map_of (List.map_filter (wire_entry self) fm) k = map_option JInt (getattr self f)"
proof (induction fm)
  case Nil
  then show ?case by simp
next
  case (Cons item fm)
  show ?case
  proof (cases "item = (f, k)")
    case True
    from Cons.prems True have "k \<notin> snd ` set fm" by auto
    then have "\<not> (\<exists>g. (g, k) \<in> set fm \<and> getattr self g \<noteq> None)" by force
    then have "k \<notin> fst ` set (List.map_filter (wire_entry self) fm)"
      by (simp only: map_filter_key_set simp_thms)
    then have rest: "map_of (List.map_filter (wire_entry self) fm) k = None"
      by (simp add: map_of_eq_None_iff)
    show ?thesis
    proof (cases "getattr self f")
      case None
      with True rest show ?thesis by (simp add: wire_entry_pair)
    next
      case (Some v)
      with True show ?thesis by (simp add: wire_entry_pair)
    qed
  next
    case False
    with Cons.prems have mem: "(f, k) \<in> set fm" by simp
    from mem have "k \<in> snd ` set fm" by force
    with Cons.prems have other: "snd item \<noteq> k" by auto
    from Cons.prems mem have IH: "map_of (List.map_filter (wire_entry self) fm) k =
        map_option JInt (getattr self f)"
      by (simp add: Cons.IH)
    show ?thesis
    proof (cases "wire_entry self item")
      case None
      with IH show ?thesis by simp
    next
      case (Some y)
      with other wire_entry_key [OF Some] have "fst y \<noteq> k" by simp
      with Some IH show ?thesis by (cases y) simp
    qed
  qed
qed

lemma dict_get_as_espminer:
  "(f, k) \<in> set field_mapping \<Longrightarrow>
   dict_get (map_of (as_espminer self)) k =
     (case getattr self f of None \<Rightarrow> JNull | Some v \<Rightarrow> JInt v)"
  unfolding as_espminer_closed dict_get_def
  by (simp add: map_of_entries [OF field_mapping_distinct_wire] split: option.splits)

lemma map_of_as_espminer_other:
  "k \<notin> snd ` set field_mapping \<Longrightarrow> map_of (as_espminer self) k = None"
proof -
  assume "k \<notin> snd ` set field_mapping"
  then have "\<not> (\<exists>f. (f, k) \<in> set field_mapping \<and> getattr self f \<noteq> None)" by force
  then have "k \<notin> fst ` set (as_espminer self)"
    by (simp only: as_espminer_closed map_filter_key_set simp_thms)
  then show ?thesis by (simp add: map_of_eq_None_iff)
qed

lemma validate_stored:
  "stores_int_and_none validate \<Longrightarrow>
   validate (case x of None \<Rightarrow> JNull | Some v \<Rightarrow> JInt v) = Inr x"
  by (cases x) (simp_all add: stores_int_and_none_def)

lemma int_or_none_stores: "stores_int_and_none int_or_none"
  by (simp add: stores_int_and_none_def)

text \<open>
  C1. Round trip: whatever subset of the seven fields of \<open>x\<close> is set, building an
  Extra-Config from the dictionary \<open>as_espminer\<close> returns for \<open>x\<close> succeeds and gives \<open>x\<close> back,
  field for field. The constructor is only required to store integers and \<open>None\<close> as they are.
\<close>

theorem round_trip:
  assumes "stores_int_and_none validate"
  shows "from_espminer validate (map_of (as_espminer x)) = Inr x"
  unfolding from_espminer_Inr_table
proof (intro ballI, clarify)
  fix f k assume "(f, k) \<in> set field_mapping"
  then show "validate (dict_get (map_of (as_espminer x)) k) = Inr (getattr x f)"
    by (simp only: dict_get_as_espminer validate_stored [OF assms])
qed

theorem round_trip_witness:
  "from_espminer int_or_none
     (map_of (as_espminer \<lparr>rotation = Some 90, invertscreen = None, display_timeout = Some 5,
        overheat_mode = Some 0, overclock_enabled = None, stats_frequency = None,
        min_fan_speed = None\<rparr>)) =
   Inr \<lparr>rotation = Some 90, invertscreen = None, display_timeout = Some 5,
        overheat_mode = Some 0, overclock_enabled = None, stats_frequency = None,
        min_fan_speed = None\<rparr>"
  using round_trip [OF int_or_none_stores] by simp

section \<open>The field mapping\<close>

lemma entry_in_as_espminer:
  "(f, k) \<in> set field_mapping \<Longrightarrow> getattr self f = Some v \<Longrightarrow>
   map_of (as_espminer self) k = Some (JInt v)"
  unfolding as_espminer_closed
  by (simp add: map_of_entries [OF field_mapping_distinct_wire])



section \<open>Null, absent and zero\<close>

lemma dict_get_removed_null:
  "p k = Some JNull \<Longrightarrow> dict_get (p(k := None)) j = dict_get p j"
  by (simp add: dict_get_def)

text \<open>
  C10. An explicit null is the same as no key: removing a key whose value is null from a
  payload changes nothing in what \<open>from_espminer\<close> returns, and the field of a recognized
  key whose value is null is unset. Zero is a value like any other: a field set to 0 is
  written by \<open>as_espminer\<close>, as the integer 0 under its wire key.
\<close>

theorem null_is_absent_zero_is_set:
  "(p k = Some JNull \<longrightarrow> from_espminer validate (p(k := None)) = from_espminer validate p) \<and>
   (validate JNull = Inr None \<longrightarrow> (f, k) \<in> set field_mapping \<longrightarrow> p k = Some JNull \<longrightarrow>
      from_espminer validate p = Inr c \<longrightarrow> getattr c f = None) \<and>
   ((g, j) \<in> set field_mapping \<longrightarrow> getattr x g = Some 0 \<longrightarrow>
      map_of (as_espminer x) j = Some (JInt 0))"
proof (intro conjI impI)
  assume "p k = Some JNull"
  then show "from_espminer validate (p(k := None)) = from_espminer validate p"
    unfolding from_espminer_def by (simp only: dict_get_removed_null)
next
  assume v: "validate JNull = Inr None" and mem: "(f, k) \<in> set field_mapping"
    and null: "p k = Some JNull" and ok: "from_espminer validate p = Inr c"
  from ok mem have "validate (dict_get p k) = Inr (getattr c f)"
    unfolding from_espminer_Inr_table by blast
  moreover from null have "dict_get p k = JNull" by (simp add: dict_get_def)
  ultimately show "getattr c f = None" using v by simp
next
  assume "(g, j) \<in> set field_mapping" "getattr x g = Some 0"
  then show "map_of (as_espminer x) j = Some (JInt 0)" by (rule entry_in_as_espminer)
qed

theorem null_is_absent_zero_is_set_witness:
  "from_espminer int_or_none ((Map.empty(''rotation'' \<mapsto> JNull, ''invertscreen'' \<mapsto> JInt 0))(''rotation'' := None)) =
     from_espminer int_or_none (Map.empty(''rotation'' \<mapsto> JNull, ''invertscreen'' \<mapsto> JInt 0)) \<and>
   getattr \<lparr>rotation = None, invertscreen = Some 0, display_timeout = None,
        overheat_mode = None, overclock_enabled = None, stats_frequency = None,
        min_fan_speed = None\<rparr> ''rotation'' = None \<and>
   map_of (as_espminer \<lparr>rotation = None, invertscreen = Some 0, display_timeout = None,
        overheat_mode = None, overclock_enabled = None, stats_frequency = None,
        min_fan_speed = None\<rparr>) ''invertscreen'' = Some (JInt 0)"
proof -
  let ?c = "\<lparr>rotation = None, invertscreen = Some 0, display_timeout = None,
        overheat_mode = None, overclock_enabled = None, stats_frequency = None,
        min_fan_speed = None\<rparr>"
  let ?p = "Map.empty(''rotation'' \<mapsto> JNull, ''invertscreen'' \<mapsto> JInt 0)"
  have null: "?p ''rotation'' = Some JNull" by simp
  have v: "int_or_none JNull = Inr None" by simp
  have m1: "(''rotation'', ''rotation'') \<in> set field_mapping"
    and m2: "(''invertscreen'', ''invertscreen'') \<in> set field_mapping"
    by (simp_all add: field_mapping_def)
  have ok: "from_espminer int_or_none ?p = Inr ?c"
    by (simp add: from_espminer_def new_ESPMinerExtraConfig_def bind_err_def dict_get_def)
  have zero: "getattr ?c ''invertscreen'' = Some 0" by (simp add: getattr_def)
  from null_is_absent_zero_is_set
    [of ?p "''rotation''" int_or_none "''rotation''" ?c "''invertscreen''" "''invertscreen''" ?c]
    null v m1 m2 ok zero
  show ?thesis by fast
qed

section \<open>Deserialisation\<close>

lemma validate_int_or_null:
  assumes "stores_int_and_none validate"
    and "p k = None \<or> p k = Some JNull \<or> (\<exists>i. p k = Some (JInt i))"
  shows "validate (dict_get p k) = Inr (as_int (dict_get p k))"
  using assms by (auto simp: stores_int_and_none_def dict_get_def)

lemma restrict_int_or_null:
  assumes "p k = None \<or> p k = Some JNull \<or> (\<exists>i. p k = Some (JInt i))"
  shows "map_option JInt (as_int (dict_get p k)) = (if p k \<noteq> Some JNull then p k else None)"
  using assms by (auto simp: dict_get_def)

lemma same_on_wire_keys:
  assumes "\<forall>k \<in> snd ` set field_mapping. q k = p k"
  shows "from_espminer validate q = from_espminer validate p"
proof -
  have "dict_get q k = dict_get p k" if "k \<in> snd ` set field_mapping" for k
  proof -
    from assms that have "q k = p k" by (rule bspec)
    then show ?thesis by (simp add: dict_get_def)
  qed
  then show ?thesis
    unfolding from_espminer_def wire_keys by simp
qed

lemma from_espminer_total:
  assumes "\<forall>k \<in> snd ` set field_mapping. \<exists>r. validate (dict_get p k) = Inr r"
  shows "\<exists>c. from_espminer validate p = Inr c"
proof -
  have "\<not> (\<exists>e. from_espminer validate p = Inl e)"
    unfolding from_espminer_Inl using assms by fastforce
  then show ?thesis by (cases "from_espminer validate p") auto
qed

text \<open>
  C3, as amended. For every payload whose values at the seven recognized wire keys are
  integers or null (any other key may carry anything), \<open>from_espminer\<close> succeeds, and the
  dictionary \<open>as_espminer\<close> returns for its result is the payload restricted to the
  recognized keys whose value is not null: a sub-mapping of the payload, with no
  unrecognized key and no null.
\<close>

theorem wire_round_trip_is_restriction:
  assumes "stores_int_and_none validate"
    and "\<forall>k \<in> snd ` set field_mapping.
           p k = None \<or> p k = Some JNull \<or> (\<exists>i. p k = Some (JInt i))"
  shows "\<exists>c. from_espminer validate p = Inr c \<and>
           map_of (as_espminer c) =
             (\<lambda>k. if k \<in> snd ` set field_mapping \<and> p k \<noteq> Some JNull then p k else None) \<and>
           map_of (as_espminer c) \<subseteq>\<^sub>m p"
proof -
  have val: "validate (dict_get p k) = Inr (as_int (dict_get p k))"
    if "k \<in> snd ` set field_mapping" for k
    by (rule validate_int_or_null [OF assms(1)]) (rule bspec [OF assms(2) that])
  then have "\<exists>c. from_espminer validate p = Inr c"
    by (intro from_espminer_total) blast
  then obtain c where ok: "from_espminer validate p = Inr c" ..
  have eq: "map_of (as_espminer c) k =
      (if k \<in> snd ` set field_mapping \<and> p k \<noteq> Some JNull then p k else None)" for k
  proof (cases "k \<in> snd ` set field_mapping")
    case False
    then show ?thesis by (simp add: map_of_as_espminer_other)
  next
    case True
    then obtain f where mem: "(f, k) \<in> set field_mapping" by force
    with ok have "validate (dict_get p k) = Inr (getattr c f)"
      unfolding from_espminer_Inr_table by blast
    with val [OF True] have field: "getattr c f = as_int (dict_get p k)" by simp
    have "map_of (as_espminer c) k = map_option JInt (getattr c f)"
      unfolding as_espminer_closed
      using mem by (rule map_of_entries [OF field_mapping_distinct_wire])
    also have "\<dots> = (if p k \<noteq> Some JNull then p k else None)"
      unfolding field by (rule restrict_int_or_null) (rule bspec [OF assms(2) True])
    finally show ?thesis using True by simp
  qed
  then have whole: "map_of (as_espminer c) =
      (\<lambda>k. if k \<in> snd ` set field_mapping \<and> p k \<noteq> Some JNull then p k else None)"
    by (rule ext)
  have "map_of (as_espminer c) \<subseteq>\<^sub>m p"
    unfolding map_le_def whole by (auto simp: dom_def)
  with ok whole show ?thesis by blast
qed


theorem wire_round_trip_is_restriction_witness:
  "\<exists>c. from_espminer int_or_none
          (Map.empty(''rotation'' \<mapsto> JInt 90, ''invertscreen'' \<mapsto> JInt 1,
             ''displayTimeout'' \<mapsto> JInt 5, ''minFanSpeed'' \<mapsto> JNull,
             ''hostname'' \<mapsto> JStr ''bitaxe'')) = Inr c \<and>
        map_of (as_espminer c) =
          (\<lambda>k. if k \<in> snd ` set field_mapping \<and>
                   (Map.empty(''rotation'' \<mapsto> JInt 90, ''invertscreen'' \<mapsto> JInt 1,
                      ''displayTimeout'' \<mapsto> JInt 5, ''minFanSpeed'' \<mapsto> JNull,
                      ''hostname'' \<mapsto> JStr ''bitaxe'')) k \<noteq> Some JNull
                then (Map.empty(''rotation'' \<mapsto> JInt 90, ''invertscreen'' \<mapsto> JInt 1,
                      ''displayTimeout'' \<mapsto> JInt 5, ''minFanSpeed'' \<mapsto> JNull,
                      ''hostname'' \<mapsto> JStr ''bitaxe'')) k
                else None) \<and>
        map_of (as_espminer c) \<subseteq>\<^sub>m
          (Map.empty(''rotation'' \<mapsto> JInt 90, ''invertscreen'' \<mapsto> JInt 1,
             ''displayTimeout'' \<mapsto> JInt 5, ''minFanSpeed'' \<mapsto> JNull,
             ''hostname'' \<mapsto> JStr ''bitaxe''))"
proof (rule wire_round_trip_is_restriction [OF int_or_none_stores])
  show "\<forall>k \<in> snd ` set field_mapping.
      (Map.empty(''rotation'' \<mapsto> JInt 90, ''invertscreen'' \<mapsto> JInt 1,
         ''displayTimeout'' \<mapsto> JInt 5, ''minFanSpeed'' \<mapsto> JNull,
         ''hostname'' \<mapsto> JStr ''bitaxe'')) k = None \<or>
      (Map.empty(''rotation'' \<mapsto> JInt 90, ''invertscreen'' \<mapsto> JInt 1,
         ''displayTimeout'' \<mapsto> JInt 5, ''minFanSpeed'' \<mapsto> JNull,
         ''hostname'' \<mapsto> JStr ''bitaxe'')) k = Some JNull \<or>
      (\<exists>i. (Map.empty(''rotation'' \<mapsto> JInt 90, ''invertscreen'' \<mapsto> JInt 1,
         ''displayTimeout'' \<mapsto> JInt 5, ''minFanSpeed'' \<mapsto> JNull,
         ''hostname'' \<mapsto> JStr ''bitaxe'')) k = Some (JInt i))"
    unfolding wire_keys by simp
qed

text \<open>
  C3 as stated fails on a payload with a value that no \<open>int | None\<close> field accepts:
  nothing is built from it, so there is no dictionary to compare with the payload.
\<close>

theorem wire_round_trip_counterexample:
  "from_espminer int_or_none (Map.empty(''rotation'' \<mapsto> JStr ''abc'')) = Inl ValidationError"
  by (simp add: from_espminer_def new_ESPMinerExtraConfig_def bind_err_def dict_get_def)

lemma from_espminer_succeeds_iff:
  "(\<exists>c. from_espminer validate p = Inr c) \<longleftrightarrow>
     (\<forall>k \<in> snd ` set field_mapping. \<exists>r. validate (dict_get p k) = Inr r)"
proof
  assume "\<exists>c. from_espminer validate p = Inr c"
  then have "\<not> (\<exists>e. from_espminer validate p = Inl e)" by auto
  then have none: "\<not> (\<exists>k \<in> snd ` set field_mapping. \<exists>e. validate (dict_get p k) = Inl e)"
    by (simp only: from_espminer_Inl simp_thms)
  show "\<forall>k \<in> snd ` set field_mapping. \<exists>r. validate (dict_get p k) = Inr r"
  proof
    fix k assume k: "k \<in> snd ` set field_mapping"
    with none have "\<not> (\<exists>e. validate (dict_get p k) = Inl e)" by blast
    then show "\<exists>r. validate (dict_get p k) = Inr r"
      by (cases "validate (dict_get p k)") auto
  qed
next
  assume "\<forall>k \<in> snd ` set field_mapping. \<exists>r. validate (dict_get p k) = Inr r"
  then show "\<exists>c. from_espminer validate p = Inr c" by (rule from_espminer_total)
qed

text \<open>
  C4, as amended. What \<open>from_espminer\<close> returns depends only on the values at the seven
  recognized wire keys: any other key is ignored and cannot make it raise. It succeeds
  exactly when the value at every recognized key (\<open>None\<close> for a missing key) passes the
  check of its field. Then every field holds the checked value at its wire key: the integer
  when the key carries one, \<open>None\<close> when the key is missing, never a default 0. A value the
  check rejects fails the whole construction: no field is recovered one by one.
\<close>

theorem from_espminer_field_by_field:
  assumes "stores_int_and_none validate"
  shows "(from_espminer validate p = Inr c \<longrightarrow>
            (\<forall>(f, k) \<in> set field_mapping.
               validate (dict_get p k) = Inr (getattr c f) \<and>
               (p k = None \<longrightarrow> getattr c f = None) \<and>
               (\<forall>i. p k = Some (JInt i) \<longrightarrow> getattr c f = Some i))) \<and>
         ((\<forall>k \<in> snd ` set field_mapping. q k = p k) \<longrightarrow>
            from_espminer validate q = from_espminer validate p) \<and>
         ((\<exists>c'. from_espminer validate p = Inr c') \<longleftrightarrow>
            (\<forall>k \<in> snd ` set field_mapping. \<exists>r. validate (dict_get p k) = Inr r))"
proof (intro conjI impI)
  assume ok: "from_espminer validate p = Inr c"
  show "\<forall>(f, k) \<in> set field_mapping.
               validate (dict_get p k) = Inr (getattr c f) \<and>
               (p k = None \<longrightarrow> getattr c f = None) \<and>
               (\<forall>i. p k = Some (JInt i) \<longrightarrow> getattr c f = Some i)"
  proof (intro ballI, clarify)
    fix f k assume "(f, k) \<in> set field_mapping"
    with ok have val: "validate (dict_get p k) = Inr (getattr c f)"
      unfolding from_espminer_Inr_table by blast
    have "getattr c f = None" if "p k = None"
      using val that assms by (simp add: dict_get_def stores_int_and_none_def)
    moreover have "getattr c f = Some i" if "p k = Some (JInt i)" for i
      using val that assms by (simp add: dict_get_def stores_int_and_none_def)
    ultimately show "validate (dict_get p k) = Inr (getattr c f) \<and>
               (p k = None \<longrightarrow> getattr c f = None) \<and>
               (\<forall>i. p k = Some (JInt i) \<longrightarrow> getattr c f = Some i)"
      using val by blast
  qed
next
  assume "\<forall>k \<in> snd ` set field_mapping. q k = p k"
  then show "from_espminer validate q = from_espminer validate p" by (rule same_on_wire_keys)
next
  show "(\<exists>c'. from_espminer validate p = Inr c') \<longleftrightarrow>
            (\<forall>k \<in> snd ` set field_mapping. \<exists>r. validate (dict_get p k) = Inr r)"
    by (rule from_espminer_succeeds_iff)
qed

theorem from_espminer_field_by_field_witness:
  "from_espminer int_or_none
     (Map.empty(''rotation'' \<mapsto> JInt 180, ''invertscreen'' \<mapsto> JInt 0,
        ''hostname'' \<mapsto> JStr ''bitaxe'')) =
     Inr \<lparr>rotation = Some 180, invertscreen = Some 0, display_timeout = None,
          overheat_mode = None, overclock_enabled = None, stats_frequency = None,
          min_fan_speed = None\<rparr> \<and>
   from_espminer int_or_none (Map.empty(''rotation'' \<mapsto> JInt 180, ''invertscreen'' \<mapsto> JInt 0)) =
     from_espminer int_or_none
       (Map.empty(''rotation'' \<mapsto> JInt 180, ''invertscreen'' \<mapsto> JInt 0,
          ''hostname'' \<mapsto> JStr ''bitaxe'')) \<and>
   getattr \<lparr>rotation = Some 180, invertscreen = Some 0, display_timeout = None,
          overheat_mode = None, overclock_enabled = None, stats_frequency = None,
          min_fan_speed = None\<rparr> ''display_timeout'' = None \<and>
   getattr \<lparr>rotation = Some 180, invertscreen = Some 0, display_timeout = None,
          overheat_mode = None, overclock_enabled = None, stats_frequency = None,
          min_fan_speed = None\<rparr> ''rotation'' = Some 180"
proof -
  let ?P = "Map.empty(''rotation'' \<mapsto> JInt 180, ''invertscreen'' \<mapsto> JInt 0,
        ''hostname'' \<mapsto> JStr ''bitaxe'')"
  let ?Q = "Map.empty(''rotation'' \<mapsto> JInt 180, ''invertscreen'' \<mapsto> JInt 0)"
  let ?C = "\<lparr>rotation = Some 180, invertscreen = Some 0, display_timeout = None,
          overheat_mode = None, overclock_enabled = None, stats_frequency = None,
          min_fan_speed = None\<rparr>"
  have ok: "from_espminer int_or_none ?P = Inr ?C"
    by (simp add: from_espminer_def new_ESPMinerExtraConfig_def bind_err_def dict_get_def)
  have same: "\<forall>k \<in> snd ` set field_mapping. ?Q k = ?P k"
    unfolding wire_keys by simp
  have m1: "(''display_timeout'', ''displayTimeout'') \<in> set field_mapping"
    and m2: "(''rotation'', ''rotation'') \<in> set field_mapping"
    by (simp_all add: field_mapping_def)
  have absent: "?P ''displayTimeout'' = None" and present: "?P ''rotation'' = Some (JInt 180)"
    by simp_all
  note T = from_espminer_field_by_field [OF int_or_none_stores, of ?P ?C ?Q]
  have fields: "\<forall>(f, k) \<in> set field_mapping.
               int_or_none (dict_get ?P k) = Inr (getattr ?C f) \<and>
               (?P k = None \<longrightarrow> getattr ?C f = None) \<and>
               (\<forall>i. ?P k = Some (JInt i) \<longrightarrow> getattr ?C f = Some i)"
    by (rule T [THEN conjunct1, THEN mp, OF ok])
  from fields m1 absent have f1: "getattr ?C ''display_timeout'' = None" by fast
  from fields m2 present have f2: "getattr ?C ''rotation'' = Some 180" by fast
  have f3: "from_espminer int_or_none ?Q = from_espminer int_or_none ?P"
    by (rule T [THEN conjunct2, THEN conjunct1, THEN mp, OF same])
  from ok f1 f2 f3 show ?thesis by (intro conjI)
qed

text \<open>
  C4 as stated fails: one value that its field does not accept aborts the construction,
  and the valid rotation next to it is lost with it.
\<close>

theorem from_espminer_field_by_field_counterexample:
  "from_espminer int_or_none
     (Map.empty(''rotation'' \<mapsto> JInt 90, ''displayTimeout'' \<mapsto> JStr ''never'')) =
   Inl ValidationError"
  by (simp add: from_espminer_def new_ESPMinerExtraConfig_def bind_err_def dict_get_def)

section \<open>The composition in MinerConfig\<close>

lemma MinerConfig_from_espminer_Inr:
  "MinerConfig_from_espminer parse_pools fan_of validate p = Inr cfg \<longleftrightarrow>
     (\<exists>pl fm ec. parse_pools p = Inr pl \<and> FanModeConfig_from_espminer fan_of p = Inr fm \<and>
        from_espminer validate p = Inr ec \<and>
        cfg = \<lparr>pools = pl, fan_mode = fm,
               extra_config = (if all_unset ec then None else Some ec)\<rparr>)"
  unfolding MinerConfig_from_espminer_def bind_err_def
  by (auto split: sum.splits)

lemma MinerConfig_from_espminer_base_ok:
  "parse_pools p = Inr pl \<Longrightarrow> FanModeConfig_from_espminer fan_of p = Inr fm \<Longrightarrow>
   from_espminer validate p = Inr ec \<Longrightarrow>
   MinerConfig_from_espminer parse_pools fan_of validate p =
     Inr \<lparr>pools = pl, fan_mode = fm, extra_config = (if all_unset ec then None else Some ec)\<rparr>"
  unfolding MinerConfig_from_espminer_def bind_err_def by simp

lemma all_unset_table:
  "all_unset ec \<longleftrightarrow> (\<forall>(f, k) \<in> set field_mapping. getattr ec f = None)"
  unfolding all_unset_def field_mapping_def
  by (simp only: list.set ball_simps prod.case getattr_simps simp_thms)

lemma fields_of_int_or_null:
  assumes "stores_int_and_none validate"
    and "\<forall>k \<in> snd ` set field_mapping.
           p k = None \<or> p k = Some JNull \<or> (\<exists>i. p k = Some (JInt i))"
  shows "\<exists>ec. from_espminer validate p = Inr ec \<and>
           (\<forall>(f, k) \<in> set field_mapping. getattr ec f = as_int (dict_get p k))"
proof -
  have val: "validate (dict_get p k) = Inr (as_int (dict_get p k))"
    if "k \<in> snd ` set field_mapping" for k
    by (rule validate_int_or_null [OF assms(1)]) (rule bspec [OF assms(2) that])
  then have "\<exists>ec. from_espminer validate p = Inr ec"
    by (intro from_espminer_total) blast
  then obtain ec where ok: "from_espminer validate p = Inr ec" ..
  have "\<forall>(f, k) \<in> set field_mapping. getattr ec f = as_int (dict_get p k)"
  proof (intro ballI, clarify)
    fix f k assume mem: "(f, k) \<in> set field_mapping"
    then have "k \<in> snd ` set field_mapping" by force
    from val [OF this] have "validate (dict_get p k) = Inr (as_int (dict_get p k))" .
    moreover from ok mem have "validate (dict_get p k) = Inr (getattr ec f)"
      unfolding from_espminer_Inr_table by blast
    ultimately show "getattr ec f = as_int (dict_get p k)" by simp
  qed
  with ok show ?thesis by blast
qed

text \<open>
  C6, as amended. When no recognized extra-config wire key of the payload carries a value
  other than null, a config that \<open>MinerConfig.from_espminer\<close> returns has no Extra-Config:
  \<open>extra_config\<close> is \<open>None\<close>, not an instance with every field unset. And it does return one
  whenever the base fields parse.
\<close>

theorem no_extra_field_gives_no_extra_config:
  assumes "validate JNull = Inr None"
    and "\<forall>k \<in> snd ` set field_mapping. p k = None \<or> p k = Some JNull"
  shows "(MinerConfig_from_espminer parse_pools fan_of validate p = Inr cfg \<longrightarrow>
            extra_config cfg = None) \<and>
         (parse_pools p = Inr pl \<longrightarrow> FanModeConfig_from_espminer fan_of p = Inr fm \<longrightarrow>
            MinerConfig_from_espminer parse_pools fan_of validate p =
              Inr \<lparr>pools = pl, fan_mode = fm, extra_config = None\<rparr>)"
proof -
  let ?empty = "\<lparr>rotation = None, invertscreen = None, display_timeout = None,
       overheat_mode = None, overclock_enabled = None, stats_frequency = None,
       min_fan_speed = None\<rparr>"
  have null: "dict_get p k = JNull" if "k \<in> snd ` set field_mapping" for k
    using bspec [OF assms(2) that] by (auto simp: dict_get_def)
  have ok: "from_espminer validate p = Inr ?empty"
    unfolding from_espminer_Inr using null assms(1) by (simp add: wire_keys)
  have unset: "all_unset ?empty" by (simp add: all_unset_def)
  have first: "extra_config cfg = None"
    if "MinerConfig_from_espminer parse_pools fan_of validate p = Inr cfg"
    using that ok unset unfolding MinerConfig_from_espminer_Inr by auto
  have second: "MinerConfig_from_espminer parse_pools fan_of validate p =
              Inr \<lparr>pools = pl, fan_mode = fm, extra_config = None\<rparr>"
    if "parse_pools p = Inr pl" "FanModeConfig_from_espminer fan_of p = Inr fm"
    using MinerConfig_from_espminer_base_ok [of parse_pools p pl fan_of fm validate ?empty]
      that ok unset by simp
  from first second show ?thesis by blast
qed

theorem no_extra_field_gives_no_extra_config_witness:
  "MinerConfig_from_espminer
     sample_pools
     sample_fan int_or_none
     (Map.empty(''stratumURL'' \<mapsto> JStr ''stratum.test.io'', ''stratumPort'' \<mapsto> JInt 3333,
        ''stratumUser'' \<mapsto> JStr ''test.user'', ''stratumPassword'' \<mapsto> JStr ''x'',
        ''autofanspeed'' \<mapsto> JInt 1)) =
   Inr \<lparr>pools = Some (JStr ''stratum.test.io''), fan_mode = JInt 1, extra_config = None\<rparr>"
proof -
  let ?P = "(Map.empty(''stratumURL'' \<mapsto> JStr ''stratum.test.io'', ''stratumPort'' \<mapsto> JInt 3333,
        ''stratumUser'' \<mapsto> JStr ''test.user'', ''stratumPassword'' \<mapsto> JStr ''x'',
        ''autofanspeed'' \<mapsto> JInt 1))"
  let ?pp = "sample_pools"
  let ?fo = "sample_fan"
  have v: "int_or_none JNull = Inr None" by simp
  have none: "\<forall>k \<in> snd ` set field_mapping. ?P k = None \<or> ?P k = Some JNull"
    unfolding wire_keys by simp
  have pl: "?pp ?P = Inr (Some (JStr ''stratum.test.io''))" by (simp add: sample_pools_def)
  have fm: "FanModeConfig_from_espminer ?fo ?P = Inr (JInt 1)"
    by (simp add: FanModeConfig_from_espminer_def sample_fan_def)
  note T = no_extra_field_gives_no_extra_config
    [where validate = int_or_none and p = ?P and parse_pools = ?pp and fan_of = ?fo
       and pl = "Some (JStr ''stratum.test.io'')" and fm = "JInt 1", OF v none]
  show ?thesis by (rule T [THEN conjunct2, THEN mp, THEN mp, OF pl fm])
qed

text \<open>
  C6 as stated fails on the empty payload, which it names: there is no fan-mode indicator
  in it, so the parse fails and no config is produced at all.
\<close>

theorem no_extra_field_gives_no_extra_config_counterexample:
  "MinerConfig_from_espminer sample_pools sample_fan int_or_none Map.empty =
     Inl MalformedPayloadError"
  by (simp add: MinerConfig_from_espminer_def FanModeConfig_from_espminer_def bind_err_def
      sample_pools_def)

text \<open>
  C7, as amended. When the recognized extra-config wire keys of the payload carry integers
  or null and at least one of them carries an integer, whatever else the payload holds, and the base
  fields parse, \<open>MinerConfig.from_espminer\<close> returns a config with an Extra-Config in which
  exactly the fields whose wire key carries an integer are set, to that integer, and every
  other field is \<open>None\<close>.
\<close>

theorem some_extra_field_gives_extra_config:
  assumes "stores_int_and_none validate"
    and "\<forall>k \<in> snd ` set field_mapping.
           p k = None \<or> p k = Some JNull \<or> (\<exists>i. p k = Some (JInt i))"
    and "\<exists>k \<in> snd ` set field_mapping. \<exists>i. p k = Some (JInt i)"
    and "parse_pools p = Inr pl"
    and "FanModeConfig_from_espminer fan_of p = Inr fm"
  shows "\<exists>ec. MinerConfig_from_espminer parse_pools fan_of validate p =
                Inr \<lparr>pools = pl, fan_mode = fm, extra_config = Some ec\<rparr> \<and>
              (\<forall>(f, k) \<in> set field_mapping. getattr ec f = as_int (dict_get p k))"
proof -
  from fields_of_int_or_null [OF assms(1,2)] obtain ec
    where ok: "from_espminer validate p = Inr ec"
      and fields: "\<forall>(f, k) \<in> set field_mapping. getattr ec f = as_int (dict_get p k)"
    by blast
  from assms(3) obtain k i where k: "k \<in> snd ` set field_mapping" and v: "p k = Some (JInt i)"
    by blast
  from k obtain f where mem: "(f, k) \<in> set field_mapping" by force
  with fields have "getattr ec f = as_int (dict_get p k)" by blast
  with v have "getattr ec f = Some i" by (simp add: dict_get_def)
  with mem have "\<not> all_unset ec" unfolding all_unset_table by force
  with MinerConfig_from_espminer_base_ok [of parse_pools p pl fan_of fm validate ec]
    assms(4,5) ok
  have "MinerConfig_from_espminer parse_pools fan_of validate p =
          Inr \<lparr>pools = pl, fan_mode = fm, extra_config = Some ec\<rparr>"
    by simp
  with fields show ?thesis by blast
qed

theorem some_extra_field_gives_extra_config_witness:
  "\<exists>ec. MinerConfig_from_espminer
          sample_pools
          sample_fan int_or_none
          (Map.empty(''stratumURL'' \<mapsto> JStr ''stratum.test.io'', ''stratumPort'' \<mapsto> JInt 3333,
        ''stratumUser'' \<mapsto> JStr ''test.user'', ''stratumPassword'' \<mapsto> JStr ''x'',
        ''autofanspeed'' \<mapsto> JInt 1, ''rotation'' \<mapsto> JInt 180, ''invertscreen'' \<mapsto> JInt 0)) =
        Inr \<lparr>pools = Some (JStr ''stratum.test.io''), fan_mode = JInt 1, extra_config = Some ec\<rparr> \<and>
        getattr ec ''rotation'' = Some 180 \<and> getattr ec ''invertscreen'' = Some 0 \<and>
        getattr ec ''display_timeout'' = None \<and> getattr ec ''overheat_mode'' = None"
proof -
  let ?P = "(Map.empty(''stratumURL'' \<mapsto> JStr ''stratum.test.io'', ''stratumPort'' \<mapsto> JInt 3333,
        ''stratumUser'' \<mapsto> JStr ''test.user'', ''stratumPassword'' \<mapsto> JStr ''x'',
        ''autofanspeed'' \<mapsto> JInt 1, ''rotation'' \<mapsto> JInt 180, ''invertscreen'' \<mapsto> JInt 0))"
  let ?pp = "sample_pools"
  let ?fo = "sample_fan"
  have ints: "\<forall>k \<in> snd ` set field_mapping.
      ?P k = None \<or> ?P k = Some JNull \<or> (\<exists>i. ?P k = Some (JInt i))"
    unfolding wire_keys by simp
  have one: "\<exists>k \<in> snd ` set field_mapping. \<exists>i. ?P k = Some (JInt i)"
    unfolding wire_keys by simp
  have pl: "?pp ?P = Inr (Some (JStr ''stratum.test.io''))" by (simp add: sample_pools_def)
  have fm: "FanModeConfig_from_espminer ?fo ?P = Inr (JInt 1)"
    by (simp add: FanModeConfig_from_espminer_def sample_fan_def)
  from some_extra_field_gives_extra_config
    [where validate = int_or_none and p = ?P and parse_pools = ?pp and fan_of = ?fo
       and pl = "Some (JStr ''stratum.test.io'')" and fm = "JInt 1",
     OF int_or_none_stores ints one pl fm]
  obtain ec where res: "MinerConfig_from_espminer ?pp ?fo int_or_none ?P =
        Inr \<lparr>pools = Some (JStr ''stratum.test.io''), fan_mode = JInt 1, extra_config = Some ec\<rparr>"
    and fields: "\<forall>(f, k) \<in> set field_mapping. getattr ec f = as_int (dict_get ?P k)"
    by blast
  have m: "(''rotation'', ''rotation'') \<in> set field_mapping"
    "(''invertscreen'', ''invertscreen'') \<in> set field_mapping"
    "(''display_timeout'', ''displayTimeout'') \<in> set field_mapping"
    "(''overheat_mode'', ''overheat_mode'') \<in> set field_mapping"
    by (simp_all add: field_mapping_def)
  have g: "as_int (dict_get ?P ''rotation'') = Some 180"
    "as_int (dict_get ?P ''invertscreen'') = Some 0"
    "as_int (dict_get ?P ''displayTimeout'') = None"
    "as_int (dict_get ?P ''overheat_mode'') = None"
    by (simp_all add: dict_get_def)
  from fields m(1) have "getattr ec ''rotation'' = as_int (dict_get ?P ''rotation'')" by fast
  moreover from fields m(2)
  have "getattr ec ''invertscreen'' = as_int (dict_get ?P ''invertscreen'')" by fast
  moreover from fields m(3)
  have "getattr ec ''display_timeout'' = as_int (dict_get ?P ''displayTimeout'')" by fast
  moreover from fields m(4)
  have "getattr ec ''overheat_mode'' = as_int (dict_get ?P ''overheat_mode'')" by fast
  ultimately have "getattr ec ''rotation'' = Some 180 \<and> getattr ec ''invertscreen'' = Some 0 \<and>
        getattr ec ''display_timeout'' = None \<and> getattr ec ''overheat_mode'' = None"
    by (simp only: g simp_thms)
  with res show ?thesis by (intro exI [of _ ec] conjI) simp_all
qed

text \<open>
  C7 as stated fails on a payload that has a recognized key with a value and nothing else:
  without the fan-mode indicator no config is produced. It fails too when the indicator is
  there and the value of the recognized key is one that its field does not accept.
\<close>

theorem some_extra_field_gives_extra_config_counterexample:
  "MinerConfig_from_espminer sample_pools sample_fan int_or_none
     (Map.empty(''rotation'' \<mapsto> JInt 90)) =
   Inl MalformedPayloadError"
  by (simp add: MinerConfig_from_espminer_def FanModeConfig_from_espminer_def bind_err_def
      sample_pools_def)

lemma rejected_extra_field_fails_parse:
  "MinerConfig_from_espminer sample_pools sample_fan int_or_none
     (Map.empty(''autofanspeed'' \<mapsto> JInt 1, ''rotation'' \<mapsto> JStr ''abc'')) =
   Inl ValidationError"
  by (simp add: MinerConfig_from_espminer_def FanModeConfig_from_espminer_def bind_err_def
      sample_pools_def sample_fan_def from_espminer_def new_ESPMinerExtraConfig_def dict_get_def)

section \<open>The method on objects\<close>

lemma as_espminer_body_cells:
  assumes "cells s self = Some (Instance c)" and "cells s result = Some (Dictionary acc)"
  shows "cells (as_espminer_body self result item s) =
           (cells s)(result \<mapsto> Dictionary (as_espminer_step c item acc)) \<and>
         next_ref (as_espminer_body self result item s) = next_ref s"
proof (cases "getattr c (fst item)")
  case None
  with assms show ?thesis
    by (auto simp: as_espminer_body_def store_getattr_def as_espminer_step_def)
next
  case (Some v)
  with assms show ?thesis
    by (simp add: as_espminer_body_def store_getattr_def store_setitem_def as_espminer_step_def)
qed

lemma as_espminer_loop_cells:
  assumes "cells s self = Some (Instance c)" and "cells s result = Some (Dictionary acc)"
  shows "cells (fold (as_espminer_body self result) fm s) =
           (cells s)(result \<mapsto> Dictionary (fold (as_espminer_step c) fm acc)) \<and>
         next_ref (fold (as_espminer_body self result) fm s) = next_ref s"
  using assms
proof (induction fm arbitrary: s acc)
  case Nil
  then show ?case by auto
next
  case (Cons item fm)
  let ?s = "as_espminer_body self result item s"
  from as_espminer_body_cells [OF Cons.prems, of item]
  have c: "cells ?s = (cells s)(result \<mapsto> Dictionary (as_espminer_step c item acc))"
    and n: "next_ref ?s = next_ref s" by simp_all
  from Cons.prems have ne: "self \<noteq> result" by auto
  from c ne Cons.prems have self: "cells ?s self = Some (Instance c)" by simp
  from c have res: "cells ?s result = Some (Dictionary (as_espminer_step c item acc))" by simp
  note IH = Cons.IH [OF self res]
  have "cells (fold (as_espminer_body self result) fm ?s) =
          (cells s)(result \<mapsto> Dictionary (fold (as_espminer_step c) fm (as_espminer_step c item acc)))"
    by (rule trans [OF IH [THEN conjunct1]]) (simp only: c fun_upd_upd)
  moreover have "next_ref (fold (as_espminer_body self result) fm ?s) = next_ref s"
    by (rule trans [OF IH [THEN conjunct2] n])
  ultimately show ?case by (simp only: fold_simps o_apply simp_thms)
qed

lemma as_espminer_call_effect:
  assumes "cells s self = Some (Instance c)" and "self < next_ref s"
  shows "as_espminer_call self s =
           (next_ref s,
            s\<lparr>cells := (cells s)(next_ref s \<mapsto> Dictionary (as_espminer c)),
              next_ref := Suc (next_ref s)\<rparr>)"
proof -
  let ?r = "next_ref s"
  let ?s1 = "s\<lparr>cells := (cells s)(?r \<mapsto> Dictionary []), next_ref := Suc ?r\<rparr>"
  from assms have self: "cells ?s1 self = Some (Instance c)" by simp
  have res: "cells ?s1 ?r = Some (Dictionary [])" by simp
  from as_espminer_loop_cells [OF self res, of field_mapping]
  have c: "cells (fold (as_espminer_body self ?r) field_mapping ?s1) =
             (cells s)(?r \<mapsto> Dictionary (as_espminer c))"
    and n: "next_ref (fold (as_espminer_body self ?r) field_mapping ?s1) = Suc ?r"
    by (simp_all add: as_espminer_def)
  have "fold (as_espminer_body self ?r) field_mapping ?s1 =
          s\<lparr>cells := (cells s)(?r \<mapsto> Dictionary (as_espminer c)), next_ref := Suc ?r\<rparr>"
  proof -
    have m: "store.more (as_espminer_body self ?r item t) = store.more t" for item t
      by (simp add: as_espminer_body_def store_setitem_def split: option.splits obj.splits)
    have "store.more (fold (as_espminer_body self ?r) fm t) = store.more t" for fm t
      by (induction fm arbitrary: t) (simp_all add: m)
    with c n show ?thesis by (intro store.equality) simp_all
  qed
  then show ?thesis by (simp add: as_espminer_call_def alloc_def)
qed


text \<open>
  C8. A call of \<open>as_espminer\<close> on an instance in the store (at a reference that was given
  out before, so that no new object takes its place) returns a reference to a new
  dictionary and changes nothing else: the instance has every field as before, and so has
  every other object. The dictionary is determined by the seven field values of the
  instance alone, with its keys in the order of the table (the wire keys of the set
  fields, in declaration order). So a second call, on the state the first one left,
  returns a dictionary with the same entries in the same order, and leaves the first
  dictionary and the instance as they were.
\<close>

theorem as_espminer_read_only_and_stable:
  assumes "cells s self = Some (Instance c)" and "self < next_ref s"
  shows "\<exists>result s'. as_espminer_call self s = (result, s') \<and>
           cells s' self = Some (Instance c) \<and>
           (\<forall>r. r \<noteq> result \<longrightarrow> cells s' r = cells s r) \<and>
           cells s' result = Some (Dictionary (as_espminer c)) \<and>
           map fst (as_espminer c) =
             map snd (filter (\<lambda>item. getattr c (fst item) \<noteq> None) field_mapping) \<and>
           (\<exists>result' s''. as_espminer_call self s' = (result', s'') \<and>
              result' \<noteq> result \<and>
              cells s'' result' = cells s' result \<and>
              cells s'' result = cells s' result \<and>
              cells s'' self = Some (Instance c))"
proof -
  let ?r = "next_ref s"
  let ?s' = "s\<lparr>cells := (cells s)(?r \<mapsto> Dictionary (as_espminer c)), next_ref := Suc ?r\<rparr>"
  let ?s'' = "?s'\<lparr>cells := (cells ?s')(Suc ?r \<mapsto> Dictionary (as_espminer c)),
                 next_ref := Suc (Suc ?r)\<rparr>"
  from assms have ne: "self \<noteq> ?r" by simp
  have first: "as_espminer_call self s = (?r, ?s')"
    using assms by (rule as_espminer_call_effect)
  from assms ne have self': "cells ?s' self = Some (Instance c)" by simp
  from assms have lt': "self < next_ref ?s'" by simp
  have second: "as_espminer_call self ?s' = (Suc ?r, ?s'')"
    using as_espminer_call_effect [OF self' lt'] by simp
  have frame: "\<forall>r. r \<noteq> ?r \<longrightarrow> cells ?s' r = cells s r" by simp
  have res: "cells ?s' ?r = Some (Dictionary (as_espminer c))" by simp
  have order: "map fst (as_espminer c) =
      map snd (filter (\<lambda>item. getattr c (fst item) \<noteq> None) field_mapping)"
    by (simp only: as_espminer_closed map_filter_keys)
  have again: "Suc ?r \<noteq> ?r" "cells ?s'' (Suc ?r) = cells ?s' ?r"
    "cells ?s'' ?r = cells ?s' ?r" "cells ?s'' self = Some (Instance c)"
    using assms ne by simp_all
  from second again
  have "\<exists>result' s''. as_espminer_call self ?s' = (result', s'') \<and>
              result' \<noteq> ?r \<and>
              cells s'' result' = cells ?s' ?r \<and>
              cells s'' ?r = cells ?s' ?r \<and>
              cells s'' self = Some (Instance c)"
    by blast
  with first self' frame res order show ?thesis by blast
qed

theorem as_espminer_read_only_and_stable_witness:
  "\<exists>result s'.
     as_espminer_call 0
       \<lparr>cells = Map.empty(0 \<mapsto> Instance \<lparr>rotation = Some 90, invertscreen = None,
            display_timeout = Some 5, overheat_mode = None, overclock_enabled = None,
            stats_frequency = None, min_fan_speed = None\<rparr>),
        next_ref = 1\<rparr> = (result, s') \<and>
     cells s' 0 = Some (Instance \<lparr>rotation = Some 90, invertscreen = None,
            display_timeout = Some 5, overheat_mode = None, overclock_enabled = None,
            stats_frequency = None, min_fan_speed = None\<rparr>) \<and>
     cells s' result = Some (Dictionary [(''rotation'', JInt 90), (''displayTimeout'', JInt 5)])"
proof -
  let ?c = "\<lparr>rotation = Some 90, invertscreen = None,
            display_timeout = Some 5, overheat_mode = None, overclock_enabled = None,
            stats_frequency = None, min_fan_speed = None\<rparr>"
  let ?s = "\<lparr>cells = Map.empty(0 \<mapsto> Instance ?c), next_ref = 1\<rparr>"
  have inst: "cells ?s 0 = Some (Instance ?c)" by simp
  have lt: "0 < next_ref ?s" by simp
  have dict: "as_espminer ?c = [(''rotation'', JInt 90), (''displayTimeout'', JInt 5)]"
    by (simp add: as_espminer_def field_mapping_def as_espminer_step_def getattr_def)
  from as_espminer_read_only_and_stable [OF inst lt]
  obtain result s' where "as_espminer_call 0 ?s = (result, s')"
    and "cells s' 0 = Some (Instance ?c)"
    and "cells s' result = Some (Dictionary (as_espminer ?c))"
    by blast
  with dict show ?thesis by (intro exI [of _ result] exI [of _ s']) simp
qed

section \<open>The base fields decide the parse\<close>

lemma get_str_Inr: "get_str p k = Inr s \<longleftrightarrow> p k = Some (JStr s)"
  by (auto simp: get_str_def split: option.splits json.splits)

lemma get_int_Inr: "get_int p k = Inr i \<longleftrightarrow> p k = Some (JInt i)"
  by (auto simp: get_int_def split: option.splits json.splits)














end
